theory Spec2Isabelle
  imports Complex_Main
begin

section \<open>Values, exceptions and printed lines\<close>

text \<open>
  The scraper (\<^verbatim>\<open>extra-tablets.py\<close>) works on decoded JSON: every raw item, every page
  and every field is a Python value. Dictionaries are association lists read with
  \<open>map_of\<close> (the first binding of a key is the dictionary's); a finite float is the
  rational it denotes, NaN and the infinities are outside this universe. A character is
  a code point below 256.
\<close>

datatype pyval =
    PNone
  | PBool bool
  | PInt int
  | PFloat rat
  | PStr string
  | PList "pyval list"
  | PDict "(string \<times> pyval) list"

text \<open>
  The exceptions the script can meet, all subclasses of Python's \<open>Exception\<close>. The first
  four are raised by the interpreter on ill-shaped values; \<open>OperationalError\<close> is
  psycopg2's (with its subclasses), \<open>LibError\<close> any other exception of a library
  (requests, json, psycopg2), named by its class.
\<close>

datatype exn =
    AttributeError
  | IndexError
  | KeyError
  | TypeError
  | OperationalError string
  | LibError string

text \<open>
  Each \<^verbatim>\<open>print\<close> of the script is one constructor, carrying the values its f-string
  interpolates: lines 24, 26, 99, 135, 145, 152, 158, 169, 200 and 203.
\<close>

datatype log_line =
    PoolConnected
  | PoolConnectError exn
  | ProductLine pyval pyval
  | FetchFailed nat int
  | NoMoreProducts nat
  | FetchedAll pyval
  | FetchError nat exn
  | SaveSkipped
  | SaveOk nat
  | SaveError exn

section \<open>Python primitives the script uses\<close>

text \<open>\<^verbatim>\<open>d.get(k, default)\<close> on a dictionary.\<close>

definition dict_get :: "(string \<times> pyval) list \<Rightarrow> string \<Rightarrow> pyval \<Rightarrow> pyval" where
  "dict_get kvs k d = (case map_of kvs k of None \<Rightarrow> d | Some v \<Rightarrow> v)"

text \<open>\<^verbatim>\<open>v.get(k, default)\<close> on any value: only a dictionary has the method.\<close>

definition py_get :: "pyval \<Rightarrow> string \<Rightarrow> pyval \<Rightarrow> exn + pyval" where
  "py_get v k d = (case v of PDict kvs \<Rightarrow> Inr (dict_get kvs k d) | _ \<Rightarrow> Inl AttributeError)"

text \<open>Truth value of a Python value, as \<^verbatim>\<open>if v\<close> and \<^verbatim>\<open>not v\<close> read it.\<close>

definition truthy :: "pyval \<Rightarrow> bool" where
  "truthy v = (case v of
      PNone \<Rightarrow> False
    | PBool b \<Rightarrow> b
    | PInt i \<Rightarrow> i \<noteq> 0
    | PFloat r \<Rightarrow> r \<noteq> 0
    | PStr s \<Rightarrow> s \<noteq> []
    | PList xs \<Rightarrow> xs \<noteq> []
    | PDict kvs \<Rightarrow> kvs \<noteq> [])"

text \<open>
  \<^verbatim>\<open>v[0]\<close>: the first element of a list, the first character of a string; an empty
  sequence raises IndexError, a dictionary (whose keys are strings) KeyError, anything
  else is not subscriptable.
\<close>

definition subscript0 :: "pyval \<Rightarrow> exn + pyval" where
  "subscript0 v = (case v of
      PList xs \<Rightarrow> (case xs of [] \<Rightarrow> Inl IndexError | x # _ \<Rightarrow> Inr x)
    | PStr s \<Rightarrow> (case s of [] \<Rightarrow> Inl IndexError | c # _ \<Rightarrow> Inr (PStr [c]))
    | PDict kvs \<Rightarrow> Inl KeyError
    | _ \<Rightarrow> Inl TypeError)"

text \<open>
  \<^verbatim>\<open>for x in v\<close>: the elements of a list, the characters of a string, the keys of a
  dictionary; other values are not iterable.
\<close>

definition py_iter :: "pyval \<Rightarrow> exn + pyval list" where
  "py_iter v = (case v of
      PList xs \<Rightarrow> Inr xs
    | PStr s \<Rightarrow> Inr (map (\<lambda>c. PStr [c]) s)
    | PDict kvs \<Rightarrow> Inr (map PStr (remdups (map fst kvs)))
    | _ \<Rightarrow> Inl TypeError)"

text \<open>
  \<^verbatim>\<open>n >= v\<close> for a length \<open>n\<close>: numbers compare by value (\<open>True\<close> is 1, \<open>False\<close> is 0),
  every other right operand raises TypeError.
\<close>

definition len_ge :: "nat \<Rightarrow> pyval \<Rightarrow> exn + bool" where
  "len_ge n v = (case v of
      PInt i \<Rightarrow> Inr (i \<le> int n)
    | PBool b \<Rightarrow> Inr ((if b then 1 else 0) \<le> n)
    | PFloat r \<Rightarrow> Inr (r \<le> of_nat n)
    | _ \<Rightarrow> Inl TypeError)"

text \<open>
  \<^verbatim>\<open>s.upper()\<close> on ASCII text: the letters \<open>a\<close> to \<open>z\<close> become \<open>A\<close> to \<open>Z\<close>; a small letter is 32
  above its capital, so the capital has bit 5 cleared. Python also changes letters above
  127, none of them into one of \<open>A\<close> to \<open>Z\<close> but the sharp s, which becomes \<open>SS\<close>; these are
  kept here as they are. The table below has ASCII capitals for keys and no key holds
  \<open>SS\<close>, so on every string of code points below 256 the lookup of \<open>format_brand\<close> is the
  one the code makes.
\<close>

definition upper_char :: "char \<Rightarrow> char" where
  "upper_char c =
     (case c of Char b0 b1 b2 b3 b4 b5 b6 b7 \<Rightarrow>
        (let n = (of_char c :: nat)
         in if 97 \<le> n \<and> n \<le> 122 then Char b0 b1 b2 b3 b4 False b6 b7 else c))"

definition str_upper :: "string \<Rightarrow> string" where
  "str_upper s = map upper_char s"

text \<open>\<^verbatim>\<open>s.split(',', 1)\<close>: at most one split, at the first separator.\<close>

definition split1 :: "char \<Rightarrow> string \<Rightarrow> string list" where
  "split1 sep s =
     (if sep \<in> set s then [takeWhile (\<lambda>c. c \<noteq> sep) s, tl (dropWhile (\<lambda>c. c \<noteq> sep) s)]
      else [s])"

text \<open>
  A value inside an f-string: a string is itself; the text of any other value is
  Python's \<open>format\<close>, the parameter \<open>fmt\<close>.
\<close>

definition py_format :: "(pyval \<Rightarrow> string) \<Rightarrow> pyval \<Rightarrow> string" where
  "py_format fmt v = (case v of PStr s \<Rightarrow> s | _ \<Rightarrow> fmt v)"

section \<open>Brand correction and extraction\<close>

definition brand_mapping :: "(string \<times> string) list" where
  "brand_mapping =
     [(''TECNO'', ''Tecno''),
      (''APPLE'', ''Apple''),
      (''NOKIA'', ''Nokia''),
      (''XIAOMI'', ''Xiaomi''),
      (''VIVO'', ''Vivo''),
      (''MOTOROLA'', ''Motorola''),
      (''HUAWEI'', ''Huawei''),
      (''NOTHING'', ''Nothing''),
      (''REALME'', ''Realme''),
      (''HONOR'', ''Honor''),
      (''SAMSNG'', ''Samsung''),
      (''INFINIX'', ''Infinix'')]"

text \<open>\<^verbatim>\<open>format_brand\<close> (lines 46-64), on a string.\<close>

definition format_brand :: "string \<Rightarrow> string" where
  "format_brand brand =
     (case map_of brand_mapping (str_upper brand) of None \<Rightarrow> brand | Some b \<Rightarrow> b)"

record product_record =
  name :: string
  specs :: pyval
  new_price :: pyval
  old_price :: pyval
  brand :: string
  link :: pyval
  category :: string
  datetime :: string
  stock :: pyval
  store :: string

text \<open>
  \<^verbatim>\<open>extract_product_data\<close> (lines 66-116). \<open>current_time_str\<close> is what lines 71-73 read
  from the clock. The result is the lines printed and either the exception raised or the
  record returned. The item must have \<^verbatim>\<open>.get\<close> (line 76), the title \<^verbatim>\<open>.split\<close>
  (line 77), the brand value an element 0 (line 101) and that element \<^verbatim>\<open>.upper\<close>
  (line 64); line 99 prints before the brand is read.
\<close>

definition extract_product_data ::
  "(pyval \<Rightarrow> string) \<Rightarrow> string \<Rightarrow> pyval \<Rightarrow> log_line list \<times> (exn + product_record)" where
  "extract_product_data fmt current_time_str product =
     (case product of
        PDict kvs \<Rightarrow>
          (case dict_get kvs ''nameEn'' (PStr ''No Name Available'') of
             PStr product_name \<Rightarrow>
               (let product_parts = split1 CHR '','' product_name;
                    name' = product_parts ! 0;
                    additional_name =
                      (if length product_parts > 1 then product_parts ! 1 else '''');
                    processor_core =
                      dict_get kvs ''featureEnProcessorCore'' (PStr ''No Processor Info Available'');
                    specs' =
                      (if additional_name \<noteq> []
                       then PStr (additional_name @ '', '' @ py_format fmt processor_core)
                       else processor_core);
                    product_link = dict_get kvs ''productUrl'' (PStr ''No URL Available'');
                    new_price' = dict_get kvs ''sellingPrice'' PNone;
                    old_price' = dict_get kvs ''wasPrice'' new_price';
                    in_stock_flag = dict_get kvs ''inStockFlag'' (PBool False);
                    stock' = in_stock_flag;
                    printed = [ProductLine (PStr product_name) stock']
                in case subscript0 (dict_get kvs ''brand'' (PList [PStr ''No Brand Available''])) of
                     Inl e \<Rightarrow> (printed, Inl e)
                   | Inr raw_brand \<Rightarrow>
                       (case raw_brand of
                          PStr b \<Rightarrow>
                            (printed,
                             Inr \<lparr>name = name',
                                  specs = specs',
                                  new_price = new_price',
                                  old_price = old_price',
                                  brand = format_brand b,
                                  link = product_link,
                                  category = ''tablets'',
                                  datetime = current_time_str,
                                  stock = stock',
                                  store = ''extra''\<rparr>)
                        | _ \<Rightarrow> (printed, Inl AttributeError)))
           | _ \<Rightarrow> ([], Inl AttributeError))
      | _ \<Rightarrow> ([], Inl AttributeError))"

section \<open>Pagination\<close>

text \<open>
  What one \<^verbatim>\<open>session.get\<close> does: it raises, or it returns a response with a status
  code whose \<^verbatim>\<open>.json()\<close> raises or decodes to a value.
\<close>

datatype http_outcome =
    GetRaises exn
  | Response int "exn + pyval"

type_synonym row =
  "string \<times> pyval \<times> pyval \<times> pyval \<times> pyval \<times> string \<times> string \<times> string \<times> pyval \<times> string"

text \<open>
  Everything outside the script is a parameter of the run: the text Python gives
  a non-string value in an f-string, the clock (the string of lines 71-73 at the
  \<open>k\<close>-th reading), the server (the outcome of the \<open>k\<close>-th GET, issued for an offset),
  and for each database call whether it raises: the pool's constructor (lines 15-23),
  \<^verbatim>\<open>getconn\<close>, \<^verbatim>\<open>cursor\<close>, \<^verbatim>\<open>execute_batch\<close> (on the rows it is given), \<^verbatim>\<open>commit\<close>
  and \<^verbatim>\<open>putconn\<close>.
\<close>

record env =
  format_of :: "pyval \<Rightarrow> string"
  clock :: "nat \<Rightarrow> string"
  server :: "nat \<Rightarrow> nat \<Rightarrow> http_outcome"
  pool_init :: "exn option"
  getconn_raises :: "exn option"
  cursor_raises :: "exn option"
  execute_batch_raises :: "row list \<Rightarrow> exn option"
  commit_raises :: "exn option"
  putconn_raises :: "exn option"

text \<open>
  The state of a run: the module's \<^verbatim>\<open>connection_pool\<close> (set or \<open>None\<close>), the locals of
  \<^verbatim>\<open>fetch_products\<close>, and what the run has done to the world: the offsets it has
  requested, the seconds of each \<^verbatim>\<open>time.sleep\<close>, the number of clock readings, the
  lines printed, the connections taken from the pool and not given back, and the rows
  committed to the table.
\<close>

record state =
  connection_pool :: bool
  start_index :: nat
  all_products :: "product_record list"
  all_responses :: "pyval list"
  requests :: "nat list"
  sleeps :: "nat list"
  ticks :: nat
  stdout :: "log_line list"
  checked_out :: nat
  table :: "row list"

text \<open>The loop of lines 148-149; an exception leaves what was appended before it.\<close>

fun append_products :: "env \<Rightarrow> pyval list \<Rightarrow> state \<Rightarrow> exn option \<times> state" where
  "append_products E [] s = (None, s)"
| "append_products E (product_data # rest) s =
     (case extract_product_data (format_of E) (clock E (ticks s)) product_data of
        (printed, Inl e) \<Rightarrow>
          (Some e, s\<lparr>ticks := Suc (ticks s), stdout := stdout s @ printed\<rparr>)
      | (printed, Inr r) \<Rightarrow>
          append_products E rest
            (s\<lparr>ticks := Suc (ticks s), stdout := stdout s @ printed,
               all_products := all_products s @ [r]\<rparr>))"

text \<open>Lines 141-142: \<^verbatim>\<open>products\<close> and \<^verbatim>\<open>total_products\<close> of a decoded page.\<close>

definition page_fields :: "pyval \<Rightarrow> exn + (pyval \<times> pyval)" where
  "page_fields data =
     (case py_get data ''response'' (PDict []) of
        Inl e \<Rightarrow> Inl e
      | Inr r1 \<Rightarrow>
          (case py_get r1 ''products'' (PList []) of
             Inl e \<Rightarrow> Inl e
           | Inr products \<Rightarrow>
               (case py_get data ''response'' (PDict []) of
                  Inl e \<Rightarrow> Inl e
                | Inr r2 \<Rightarrow>
                    (case py_get r2 ''numberOfProducts'' (PInt 0) of
                       Inl e \<Rightarrow> Inl e
                     | Inr total_products \<Rightarrow> Inr (products, total_products)))))"

text \<open>How the body of the \<^verbatim>\<open>try\<close> (lines 131-155) ends.\<close>

datatype ctl = Raised exn | Broke | Completed

definition try_page :: "env \<Rightarrow> state \<Rightarrow> ctl \<times> state" where
  "try_page E s =
     (let s1 = s\<lparr>requests := requests s @ [start_index s]\<rparr>
      in case server E (length (requests s)) (start_index s) of
           GetRaises e \<Rightarrow> (Raised e, s1)
         | Response status_code body \<Rightarrow>
             if status_code \<noteq> 200
             then (Broke, s1\<lparr>stdout := stdout s1 @ [FetchFailed (start_index s1) status_code]\<rparr>)
             else
               (case body of
                  Inl e \<Rightarrow> (Raised e, s1)
                | Inr data \<Rightarrow>
                    (let s2 = s1\<lparr>all_responses := all_responses s1 @ [data]\<rparr>
                     in case page_fields data of
                          Inl e \<Rightarrow> (Raised e, s2)
                        | Inr (products, total_products) \<Rightarrow>
                            if \<not> truthy products
                            then (Broke, s2\<lparr>stdout := stdout s2 @ [NoMoreProducts (start_index s2)]\<rparr>)
                            else
                              (case py_iter products of
                                 Inl e \<Rightarrow> (Raised e, s2)
                               | Inr items \<Rightarrow>
                                   (case append_products E items s2 of
                                      (Some e, s3) \<Rightarrow> (Raised e, s3)
                                    | (None, s3) \<Rightarrow>
                                        (case len_ge (length (all_products s3)) total_products of
                                           Inl e \<Rightarrow> (Raised e, s3)
                                         | Inr reached \<Rightarrow>
                                             if reached
                                             then (Broke, s3\<lparr>stdout := stdout s3 @ [FetchedAll total_products]\<rparr>)
                                             else (Completed, s3\<lparr>start_index := start_index s3 + 96\<rparr>)))))))"

text \<open>
  One pass of \<^verbatim>\<open>while True\<close> (lines 129-159): the body, and the handler of
  \<^verbatim>\<open>except Exception\<close>, which prints and sleeps five seconds.
\<close>

datatype step = Stop state | Again state

definition iteration :: "env \<Rightarrow> state \<Rightarrow> step" where
  "iteration E s =
     (case try_page E s of
        (Raised e, s') \<Rightarrow>
          Again (s'\<lparr>stdout := stdout s' @ [FetchError (start_index s') e],
                    sleeps := sleeps s' @ [5]\<rparr>)
      | (Broke, s') \<Rightarrow> Stop s'
      | (Completed, s') \<Rightarrow> Again s')"

text \<open>
  The loop may run forever; \<open>fetch_loop E n s\<close> runs at most \<open>n\<close> passes from \<open>s\<close> and is
  \<open>None\<close> when the loop has not left by then.
\<close>

fun fetch_loop :: "env \<Rightarrow> nat \<Rightarrow> state \<Rightarrow> state option" where
  "fetch_loop E 0 s = None"
| "fetch_loop E (Suc n) s =
     (case iteration E s of Stop s' \<Rightarrow> Some s' | Again s' \<Rightarrow> fetch_loop E n s')"

section \<open>Persistence\<close>

definition row_of :: "product_record \<Rightarrow> row" where
  "row_of p =
     (name p, specs p, new_price p, old_price p, link p, brand p, category p, datetime p,
      stock p, store p)"

text \<open>The body of the \<^verbatim>\<open>try\<close> of \<^verbatim>\<open>save_to_postgresql\<close> (lines 173-200).\<close>

definition try_save :: "env \<Rightarrow> product_record list \<Rightarrow> state \<Rightarrow> exn option \<times> state" where
  "try_save E products s =
     (case getconn_raises E of
        Some e \<Rightarrow> (Some e, s)
      | None \<Rightarrow>
          (let s1 = s\<lparr>checked_out := Suc (checked_out s)\<rparr>
           in case cursor_raises E of
                Some e \<Rightarrow> (Some e, s1)
              | None \<Rightarrow>
                  (let product_data = map row_of products
                   in case execute_batch_raises E product_data of
                        Some e \<Rightarrow> (Some e, s1)
                      | None \<Rightarrow>
                          (case commit_raises E of
                             Some e \<Rightarrow> (Some e, s1)
                           | None \<Rightarrow>
                               (let s2 = s1\<lparr>table := table s1 @ product_data\<rparr>
                                in case putconn_raises E of
                                     Some e \<Rightarrow> (Some e, s2)
                                   | None \<Rightarrow>
                                       (None,
                                        s2\<lparr>checked_out := checked_out s2 - 1,
                                           stdout := stdout s2 @ [SaveOk (length products)]\<rparr>))))))"

text \<open>\<^verbatim>\<open>save_to_postgresql\<close> (lines 164-203).\<close>

definition save_to_postgresql :: "env \<Rightarrow> product_record list \<Rightarrow> state \<Rightarrow> state" where
  "save_to_postgresql E products s =
     (if \<not> connection_pool s then s\<lparr>stdout := stdout s @ [SaveSkipped]\<rparr>
      else
        (case try_save E products s of
           (Some e, s') \<Rightarrow> s'\<lparr>stdout := stdout s' @ [SaveError e]\<rparr>
         | (None, s') \<Rightarrow> s'))"

text \<open>\<^verbatim>\<open>fetch_products\<close> (lines 118-162): the loop, then lines 161-162.\<close>

definition fetch_products :: "env \<Rightarrow> nat \<Rightarrow> state \<Rightarrow> state option" where
  "fetch_products E n s =
     (case fetch_loop E n (s\<lparr>start_index := 0, all_products := [], all_responses := []\<rparr>) of
        None \<Rightarrow> None
      | Some s' \<Rightarrow>
          Some (if connection_pool s' then save_to_postgresql E (all_products s') s' else s'))"

section \<open>The script\<close>

definition initial :: state where
  "initial =
     \<lparr>connection_pool = False, start_index = 0, all_products = [], all_responses = [],
      requests = [], sleeps = [], ticks = 0, stdout = [], checked_out = 0, table = []\<rparr>"

text \<open>
  Running the module: lines 13-26 build the pool and catch
  \<^verbatim>\<open>psycopg2.OperationalError\<close> only, so any other exception of the constructor ends
  the run there; line 208 calls \<^verbatim>\<open>fetch_products\<close>.
\<close>

datatype run = Crashed exn state | Exited state

definition run_script :: "env \<Rightarrow> nat \<Rightarrow> run option" where
  "run_script E n =
     (case pool_init E of
        None \<Rightarrow>
          map_option Exited
            (fetch_products E n (initial\<lparr>connection_pool := True, stdout := [PoolConnected]\<rparr>))
      | Some e \<Rightarrow>
          (case e of
             OperationalError m \<Rightarrow>
               map_option Exited (fetch_products E n (initial\<lparr>stdout := [PoolConnectError e]\<rparr>))
           | _ \<Rightarrow> Some (Crashed e initial)))"

section \<open>Notions used in the statements\<close>

text \<open>
  An item is extractable when \<^verbatim>\<open>extract_product_data\<close> returns a record for it; whether
  it does depends neither on the clock nor on the text given to non-string values.
\<close>

definition item_ok :: "pyval \<Rightarrow> bool" where
  "item_ok p =
     (case snd (extract_product_data (\<lambda>_. []) [] p) of Inl _ \<Rightarrow> False | Inr _ \<Rightarrow> True)"

text \<open>
  The records the loop of lines 148-149 appends for a list of items when the clock has
  been read \<open>k\<close> times: one for each item before the first that raises.
\<close>

fun records_from :: "(pyval \<Rightarrow> string) \<Rightarrow> (nat \<Rightarrow> string) \<Rightarrow> nat \<Rightarrow> pyval list \<Rightarrow> product_record list" where
  "records_from f c k [] = []"
| "records_from f c k (p # ps) =
     (case snd (extract_product_data f (c k) p) of
        Inl e \<Rightarrow> []
      | Inr r \<Rightarrow> r # records_from f c (Suc k) ps)"

text \<open>The state a pass of the loop ends in.\<close>

fun state_of :: "step \<Rightarrow> state" where
  "state_of (Stop s) = s"
| "state_of (Again s) = s"

text \<open>The state after \<open>n\<close> passes none of which leaves the loop.\<close>

fun after_iterations :: "env \<Rightarrow> nat \<Rightarrow> state \<Rightarrow> state option" where
  "after_iterations E 0 s = Some s"
| "after_iterations E (Suc n) s =
     (case iteration E s of Stop s' \<Rightarrow> None | Again s' \<Rightarrow> after_iterations E n s')"

text \<open>The loop, started in \<open>s\<close>, leaves in its \<open>k\<close>-th pass.\<close>

definition stops_at_iteration :: "env \<Rightarrow> state \<Rightarrow> nat \<Rightarrow> bool" where
  "stops_at_iteration E s k =
     (0 < k \<and> fetch_loop E (k - 1) s = None \<and> fetch_loop E k s \<noteq> None)"

text \<open>
  The exception of a transport or parse failure: \<^verbatim>\<open>session.get\<close> raises, or the body of
  a 200 response does not decode.
\<close>

fun fetch_exception :: "http_outcome \<Rightarrow> exn option" where
  "fetch_exception (GetRaises e) = Some e"
| "fetch_exception (Response status_code (Inl e)) = (if status_code = 200 then Some e else None)"
| "fetch_exception (Response status_code (Inr data)) = None"

text \<open>The lines printed by \<^verbatim>\<open>save_to_postgresql\<close> (lines 169, 200 and 203).\<close>

fun is_save_line :: "log_line \<Rightarrow> bool" where
  "is_save_line SaveSkipped = True"
| "is_save_line (SaveOk n) = True"
| "is_save_line (SaveError e) = True"
| "is_save_line l = False"




section \<open>Inputs of the examples\<close>

text \<open>The item of the name and specs example: a title with a comma and a processor.\<close>

definition tab_x :: pyval where
  "tab_x =
     PDict [(''nameEn'', PStr ''Tab X, 8GB RAM''), (''featureEnProcessorCore'', PStr ''Octa-core'')]"

text \<open>
  An environment in which nothing outside the script fails and the server answers every
  request with status 404; the examples replace its server.
\<close>

definition base_env :: env where
  "base_env =
     \<lparr>format_of = (\<lambda>_. []),
      clock = (\<lambda>_. ''2024-05-01 13:00:00''),
      server = (\<lambda>k offset. Response 404 (Inl (LibError ''JSONDecodeError''))),
      pool_init = None,
      getconn_raises = None,
      cursor_raises = None,
      execute_batch_raises = (\<lambda>_. None),
      commit_raises = None,
      putconn_raises = None\<rparr>"

text \<open>
  A server whose first three answers fail (a connection error, a body that does not
  decode, a timeout) and whose fourth is a 503.
\<close>

definition flaky_env :: env where
  "flaky_env =
     base_env\<lparr>server := (\<lambda>k offset.
        if k = 0 then GetRaises (LibError ''ConnectionError'')
        else if k = 1 then Response 200 (Inl (LibError ''JSONDecodeError''))
        else if k = 2 then GetRaises (LibError ''Timeout'')
        else Response 503 (Inl (LibError ''JSONDecodeError'')))\<rparr>"

text \<open>A decoded page: \<^verbatim>\<open>{"response": {"products": items, "numberOfProducts": n}}\<close>.\<close>

definition page :: "pyval list \<Rightarrow> int \<Rightarrow> pyval" where
  "page items n =
     PDict [(''response'', PDict [(''products'', PList items), (''numberOfProducts'', PInt n)])]"

text \<open>One page of 96 items, and a total of 96.\<close>

definition env96 :: env where
  "env96 =
     base_env\<lparr>server := (\<lambda>k offset.
        if offset = 0 then Response 200 (Inr (page (replicate 96 tab_x) 96))
        else Response 200 (Inr (page [] 96)))\<rparr>"

text \<open>A total of 200, a first page of 96 items and nothing at offset 96.\<close>

definition env200 :: env where
  "env200 =
     base_env\<lparr>server := (\<lambda>k offset.
        if offset = 0 then Response 200 (Inr (page (replicate 96 tab_x) 200))
        else Response 200 (Inr (page [] 200)))\<rparr>"

text \<open>
  An item whose brand list is empty (line 101 raises IndexError on it), and a server
  that sends it after \<open>tab_x\<close> in its first answer and a well-formed item in its place in
  the second.
\<close>

definition no_brand_item :: pyval where
  "no_brand_item = PDict [(''nameEn'', PStr ''Tab Y''), (''brand'', PList [])]"

definition tab_y :: pyval where
  "tab_y = PDict [(''nameEn'', PStr ''Tab Y''), (''brand'', PList [PStr ''SAMSNG''])]"

definition refetch_env :: env where
  "refetch_env =
     base_env\<lparr>server := (\<lambda>k offset.
        if k = 0 then Response 200 (Inr (page [tab_x, no_brand_item] 2))
        else Response 200 (Inr (page [tab_x, tab_y] 2)))\<rparr>"

text \<open>The server of \<open>env96\<close> with a database that cannot be reached at startup.\<close>

definition degraded_env :: env where
  "degraded_env = env96\<lparr>pool_init := Some (OperationalError ''could not connect to server'')\<rparr>"

text \<open>
  The same server when the pool's construction raises something else: the configuration
  lacks a key that lines 18-22 subscript.
\<close>

definition crash_env :: env where
  "crash_env = env96\<lparr>pool_init := Some KeyError\<rparr>"

text \<open>The record extracted from \<open>tab_x\<close>, and databases whose write or commit fails.\<close>

definition tab_x_record :: product_record where
  "tab_x_record =
     \<lparr>name = ''Tab X'', specs = PStr '' 8GB RAM, Octa-core'', new_price = PNone,
      old_price = PNone, brand = ''No Brand Available'', link = PStr ''No URL Available'',
      category = ''tablets'', datetime = ''2024-05-01 13:00:00'', stock = PBool False,
      store = ''extra''\<rparr>"

definition insert_fails_env :: env where
  "insert_fails_env = base_env\<lparr>execute_batch_raises := (\<lambda>_. Some (LibError ''DataError''))\<rparr>"

definition commit_fails_env :: env where
  "commit_fails_env = base_env\<lparr>commit_raises := Some (OperationalError ''server closed the connection'')\<rparr>"

section \<open>Brand correction\<close>
















section \<open>Extraction\<close>

lemma split1_no_sep: "sep \<notin> set s \<Longrightarrow> split1 sep s = [s]"
  by (simp add: split1_def)

lemma split1_at_first: "sep \<notin> set a \<Longrightarrow> split1 sep (a @ sep # b) = [a, b]"
proof -
  assume h: "sep \<notin> set a"
  then have "takeWhile (\<lambda>c. c \<noteq> sep) (a @ sep # b) = a"
    by (induction a) auto
  moreover from h have "dropWhile (\<lambda>c. c \<noteq> sep) (a @ sep # b) = sep # b"
    by (induction a) auto
  ultimately show ?thesis by (simp add: split1_def)
qed

lemma py_format_str: "py_format f (PStr x) = x"
  by (simp add: py_format_def)

lemma extract_dict:
  assumes "dict_get kvs ''nameEn'' (PStr ''No Name Available'') = PStr title"
      and "subscript0 (dict_get kvs ''brand'' (PList [PStr ''No Brand Available''])) = Inr (PStr b)"
  shows "snd (extract_product_data f t (PDict kvs)) =
     Inr \<lparr>name = split1 CHR '','' title ! 0,
          specs = (if length (split1 CHR '','' title) > 1 \<and> split1 CHR '','' title ! 1 \<noteq> []
                   then PStr (split1 CHR '','' title ! 1 @ '', '' @
                     py_format f (dict_get kvs ''featureEnProcessorCore'' (PStr ''No Processor Info Available'')))
                   else dict_get kvs ''featureEnProcessorCore'' (PStr ''No Processor Info Available'')),
          new_price = dict_get kvs ''sellingPrice'' PNone,
          old_price = dict_get kvs ''wasPrice'' (dict_get kvs ''sellingPrice'' PNone),
          brand = format_brand b,
          link = dict_get kvs ''productUrl'' (PStr ''No URL Available''),
          category = ''tablets'',
          datetime = t,
          stock = dict_get kvs ''inStockFlag'' (PBool False),
          store = ''extra''\<rparr>"
  using assms by (simp add: extract_product_data_def Let_def)

lemma item_ok_iff: "item_ok p \<longleftrightarrow> (\<exists>r. snd (extract_product_data f t p) = Inr r)"
  by (auto simp add: item_ok_def extract_product_data_def Let_def
      split: pyval.splits sum.splits)











text \<open>
  C3, as stated, fails: the title is split at the comma and the rest is kept as it is,
  so the specs of the example start with the blank that follows the comma.
\<close>

theorem specs_keeps_blank_counterexample:
  "snd (extract_product_data (\<lambda>_. []) ''2024-05-01 13:00:00'' tab_x) =
     Inr \<lparr>name = ''Tab X'', specs = PStr '' 8GB RAM, Octa-core'',
          new_price = PNone, old_price = PNone, brand = ''No Brand Available'',
          link = PStr ''No URL Available'', category = ''tablets'',
          datetime = ''2024-05-01 13:00:00'', stock = PBool False, store = ''extra''\<rparr> \<and>
   PStr '' 8GB RAM, Octa-core'' \<noteq> PStr ''8GB RAM, Octa-core''"
  by (simp add: tab_x_def extract_product_data_def Let_def dict_get_def split1_def subscript0_def
        py_format_def format_brand_def brand_mapping_def str_upper_def upper_char_def)

text \<open>
  C3, amended. For the title \<open>Tab X, 8GB RAM\<close> and the processor \<open>Octa-core\<close> the name is
  \<open>Tab X\<close> and the specs are \<open> 8GB RAM, Octa-core\<close>, with the blank after the comma kept.
  In general the name is the title up to its first comma; the specs are the rest of the
  title, a comma, a blank and the processor text when that rest is not empty, and the
  processor value alone otherwise. For every title with no comma the name is the title
  and the specs are the processor value alone.
\<close>

theorem name_specs_split:
  assumes "map_of kvs ''nameEn'' = Some (PStr title)"
      and "\<forall>v. map_of kvs ''brand'' = Some v \<longrightarrow> (\<exists>b bs. v = PList (PStr b # bs))"
  shows "\<exists>r. snd (extract_product_data f t (PDict kvs)) = Inr r \<and>
      (title = ''Tab X, 8GB RAM'' \<and> map_of kvs ''featureEnProcessorCore'' = Some (PStr ''Octa-core'') \<longrightarrow>
         name r = ''Tab X'' \<and> specs r = PStr '' 8GB RAM, Octa-core'') \<and>
      (\<forall>a b. title = a @ CHR '','' # b \<and> CHR '','' \<notin> set a \<longrightarrow>
         name r = a \<and>
         specs r =
           (if b = [] then dict_get kvs ''featureEnProcessorCore'' (PStr ''No Processor Info Available'')
            else PStr (b @ '', '' @
              py_format f (dict_get kvs ''featureEnProcessorCore'' (PStr ''No Processor Info Available''))))) \<and>
      (CHR '','' \<notin> set title \<longrightarrow>
         name r = title \<and>
         specs r = dict_get kvs ''featureEnProcessorCore'' (PStr ''No Processor Info Available''))"
proof -
  have ti: "dict_get kvs ''nameEn'' (PStr ''No Name Available'') = PStr title"
    using assms(1) by (simp add: dict_get_def)
  from assms(2) obtain b where
    br: "subscript0 (dict_get kvs ''brand'' (PList [PStr ''No Brand Available''])) = Inr (PStr b)"
    by (cases "map_of kvs ''brand''") (auto simp add: dict_get_def subscript0_def)
  have tx: "split1 CHR '','' ''Tab X, 8GB RAM'' = [''Tab X'', '' 8GB RAM'']"
    by (simp add: split1_def)
  show ?thesis
    unfolding extract_dict [OF ti br, of f t]
    using tx by (auto simp add: split1_no_sep split1_at_first dict_get_def py_format_def)
qed

theorem name_specs_split_witness:
  "(\<exists>r. snd (extract_product_data (\<lambda>_. []) ''2024-05-01 13:00:00'' tab_x) = Inr r \<and>
        name r = ''Tab X'' \<and> specs r = PStr '' 8GB RAM, Octa-core'') \<and>
   (\<exists>r. snd (extract_product_data (\<lambda>_. []) ''2024-05-01 13:00:00''
              (PDict [(''nameEn'', PStr ''Tab X''), (''featureEnProcessorCore'', PStr ''Octa-core'')])) = Inr r \<and>
        name r = ''Tab X'' \<and> specs r = PStr ''Octa-core'')"
proof -
  let ?k1 = "[(''nameEn'', PStr ''Tab X, 8GB RAM''), (''featureEnProcessorCore'', PStr ''Octa-core'')]"
  let ?k2 = "[(''nameEn'', PStr ''Tab X''), (''featureEnProcessorCore'', PStr ''Octa-core'')]"
  have a1: "map_of ?k1 ''nameEn'' = Some (PStr ''Tab X, 8GB RAM'')" by simp
  have b1: "\<forall>v. map_of ?k1 ''brand'' = Some v \<longrightarrow> (\<exists>b bs. v = PList (PStr b # bs))" by simp
  have a2: "map_of ?k2 ''nameEn'' = Some (PStr ''Tab X'')" by simp
  have b2: "\<forall>v. map_of ?k2 ''brand'' = Some v \<longrightarrow> (\<exists>b bs. v = PList (PStr b # bs))" by simp
  have c2: "CHR '','' \<notin> set ''Tab X''" by simp
  show ?thesis
    using name_specs_split [OF a1 b1, of "\<lambda>_. []" "''2024-05-01 13:00:00''"]
      name_specs_split [OF a2 b2, of "\<lambda>_. []" "''2024-05-01 13:00:00''"] c2
    by (simp add: tab_x_def dict_get_def) blast
qed

section \<open>The loop over the items of a page\<close>

lemma extract_ok: "item_ok p \<Longrightarrow> \<exists>pr r. extract_product_data f t p = (pr, Inr r)"
  using item_ok_iff [of p f t] by (cases "extract_product_data f t p") auto

lemma extract_bad: "\<not> item_ok p \<Longrightarrow> \<exists>pr e. extract_product_data f t p = (pr, Inl e)"
  using item_ok_iff [of p f t]
  by (cases "extract_product_data f t p"; cases "snd (extract_product_data f t p)") auto

lemma append_products_all_products:
  "all_products (snd (append_products E ps s)) =
     all_products s @ records_from (format_of E) (clock E) (ticks s) ps"
  by (induction ps arbitrary: s) (auto split: prod.splits sum.splits)

lemma append_products_frame:
  "start_index (snd (append_products E ps s)) = start_index s \<and>
   requests (snd (append_products E ps s)) = requests s \<and>
   sleeps (snd (append_products E ps s)) = sleeps s \<and>
   all_responses (snd (append_products E ps s)) = all_responses s \<and>
   connection_pool (snd (append_products E ps s)) = connection_pool s \<and>
   checked_out (snd (append_products E ps s)) = checked_out s \<and>
   table (snd (append_products E ps s)) = table s"
  by (induction ps arbitrary: s) (auto split: prod.splits sum.splits)

lemma append_products_stdout:
  "\<exists>ls. stdout (snd (append_products E ps s)) = stdout s @ ls"
proof (induction ps arbitrary: s)
  case Nil
  then show ?case by simp
next
  case (Cons p ps)
  show ?case
  proof (cases "extract_product_data (format_of E) (clock E (ticks s)) p")
    case (Pair pr res)
    show ?thesis
    proof (cases res)
      case (Inl e)
      with Pair show ?thesis by simp
    next
      case (Inr r)
      let ?s' = "s\<lparr>ticks := Suc (ticks s), stdout := stdout s @ pr,
               all_products := all_products s @ [r]\<rparr>"
      from Cons [of ?s'] obtain ls where "stdout (snd (append_products E ps ?s')) = stdout ?s' @ ls" ..
      with Pair Inr show ?thesis by simp
    qed
  qed
qed

lemma append_products_ok:
  "list_all item_ok ps \<Longrightarrow> fst (append_products E ps s) = None"
proof (induction ps arbitrary: s)
  case Nil
  then show ?case by simp
next
  case (Cons p ps)
  from Cons.prems have "item_ok p" by simp
  from extract_ok [OF this] obtain pr r where
    "extract_product_data (format_of E) (clock E (ticks s)) p = (pr, Inr r)" by blast
  with Cons show ?case by simp
qed

lemma append_products_ok_ticks:
  "list_all item_ok ps \<Longrightarrow> ticks (snd (append_products E ps s)) = ticks s + length ps"
proof (induction ps arbitrary: s)
  case Nil
  then show ?case by simp
next
  case (Cons p ps)
  from Cons.prems have "item_ok p" by simp
  from extract_ok [OF this] obtain pr r where
    "extract_product_data (format_of E) (clock E (ticks s)) p = (pr, Inr r)" by blast
  with Cons show ?case by simp
qed

lemma append_products_bad:
  "list_all item_ok good \<Longrightarrow> \<not> item_ok bad \<Longrightarrow>
     (\<exists>e. fst (append_products E (good @ bad # rest) s) = Some e) \<and>
     ticks (snd (append_products E (good @ bad # rest) s)) = ticks s + length good + 1"
proof (induction good arbitrary: s)
  case Nil
  from extract_bad [OF Nil(2)] obtain pr e where
    "extract_product_data (format_of E) (clock E (ticks s)) bad = (pr, Inl e)" by blast
  then show ?case by simp
next
  case (Cons p ps)
  from Cons.prems have "item_ok p" by simp
  from extract_ok [OF this] obtain pr r where
    "extract_product_data (format_of E) (clock E (ticks s)) p = (pr, Inr r)" by blast
  with Cons show ?case by simp
qed

lemma records_from_ok_length:
  "list_all item_ok ps \<Longrightarrow> length (records_from f c k ps) = length ps"
proof (induction ps arbitrary: k)
  case Nil
  then show ?case by simp
next
  case (Cons p ps)
  from Cons.prems have "item_ok p" by simp
  then obtain r where "snd (extract_product_data f (c k) p) = Inr r"
    using item_ok_iff by blast
  with Cons show ?case by simp
qed

lemma records_from_bad:
  "list_all item_ok good \<Longrightarrow> \<not> item_ok bad \<Longrightarrow>
     records_from f c k (good @ bad # rest) = records_from f c k good"
proof (induction good arbitrary: k)
  case Nil
  then obtain e where "snd (extract_product_data f (c k) bad) = Inl e"
    using item_ok_iff [of bad f "c k"] by (cases "snd (extract_product_data f (c k) bad)") auto
  then show ?case by simp
next
  case (Cons p ps)
  from Cons.prems have "item_ok p" by simp
  then obtain r where "snd (extract_product_data f (c k) p) = Inr r"
    using item_ok_iff by blast
  with Cons show ?case by simp
qed

section \<open>Passes of the pagination loop\<close>

lemma append_products_frame_eq:
  assumes "append_products E ps s = (x, s')"
  shows "start_index s' = start_index s" "requests s' = requests s" "sleeps s' = sleeps s"
    "all_responses s' = all_responses s" "connection_pool s' = connection_pool s"
    "checked_out s' = checked_out s" "table s' = table s"
  using append_products_frame [of E ps s] assms by simp_all

lemma try_page_exception:
  assumes "fetch_exception (server E (length (requests s)) (start_index s)) = Some e"
  shows "try_page E s = (Raised e, s\<lparr>requests := requests s @ [start_index s]\<rparr>)"
proof (cases "server E (length (requests s)) (start_index s)")
  case (GetRaises e')
  with assms show ?thesis by (simp add: try_page_def)
next
  case (Response status_code body)
  with assms show ?thesis
    by (cases body) (auto simp add: try_page_def split: if_splits)
qed

lemma iteration_exception:
  assumes "fetch_exception (server E (length (requests s)) (start_index s)) = Some e"
  shows "iteration E s =
     Again (s\<lparr>requests := requests s @ [start_index s],
              stdout := stdout s @ [FetchError (start_index s) e],
              sleeps := sleeps s @ [5]\<rparr>)"
  by (simp add: iteration_def try_page_exception [OF assms])

lemma try_page_start_index:
  assumes "try_page E s = (c, s')"
  shows "start_index s' = (if c = Completed then start_index s + 96 else start_index s)"
  using assms
  by (auto simp add: try_page_def Let_def
      split: http_outcome.splits if_splits sum.splits prod.splits option.splits
      dest: append_products_frame_eq(1))

lemma after_iterations_loop:
  "after_iterations E n s = Some s' \<Longrightarrow> fetch_loop E (n + m) s = fetch_loop E m s'"
  by (induction n arbitrary: s) (auto split: step.splits)

lemma after_iterations_add:
  "after_iterations E n s = Some s' \<Longrightarrow> after_iterations E (n + m) s = after_iterations E m s'"
  by (induction n arbitrary: s) (auto split: step.splits)

lemma retries:
  "\<forall>k<n. fetch_exception (server E (length (requests s) + k) (start_index s)) = Some (ex k) \<Longrightarrow>
   after_iterations E n s =
     Some (s\<lparr>requests := requests s @ replicate n (start_index s),
             stdout := stdout s @ map (\<lambda>k. FetchError (start_index s) (ex k)) [0..<n],
             sleeps := sleeps s @ replicate n 5\<rparr>)"
proof (induction n arbitrary: s ex)
  case 0
  then show ?case by simp
next
  case (Suc n)
  let ?s1 = "s\<lparr>requests := requests s @ [start_index s],
              stdout := stdout s @ [FetchError (start_index s) (ex 0)],
              sleeps := sleeps s @ [5]\<rparr>"
  from Suc.prems have "fetch_exception (server E (length (requests s)) (start_index s)) = Some (ex 0)"
    by (metis add.right_neutral zero_less_Suc)
  then have it: "iteration E s = Again ?s1" by (rule iteration_exception)
  have "\<forall>k<n. fetch_exception (server E (length (requests ?s1) + k) (start_index ?s1)) = Some ((ex \<circ> Suc) k)"
  proof (intro allI impI)
    fix k assume "k < n"
    then have "Suc k < Suc n" by simp
    with Suc.prems have "fetch_exception (server E (length (requests s) + Suc k) (start_index s)) = Some (ex (Suc k))"
      by blast
    then show "fetch_exception (server E (length (requests ?s1) + k) (start_index ?s1)) = Some ((ex \<circ> Suc) k)"
      by simp
  qed
  from Suc.IH [OF this] it show ?case
    by (simp add: map_upt_Suc replicate_append_same del: upt_Suc)
qed


lemma try_page_items:
  assumes "server E (length (requests s)) (start_index s) = Response 200 (Inr data)"
      and "page_fields data = Inr (PList ps, total_products)"
      and "ps \<noteq> []"
  shows "try_page E s =
     (case append_products E ps
             (s\<lparr>requests := requests s @ [start_index s],
                all_responses := all_responses s @ [data]\<rparr>) of
        (Some e, s3) \<Rightarrow> (Raised e, s3)
      | (None, s3) \<Rightarrow>
          (case len_ge (length (all_products s3)) total_products of
             Inl e \<Rightarrow> (Raised e, s3)
           | Inr reached \<Rightarrow>
               if reached then (Broke, s3\<lparr>stdout := stdout s3 @ [FetchedAll total_products]\<rparr>)
               else (Completed, s3\<lparr>start_index := start_index s3 + 96\<rparr>)))"
  using assms by (simp add: try_page_def Let_def truthy_def py_iter_def)

text \<open>The state the loop of lines 148-149 leaves for a page of extractable items.\<close>

lemma page_appended:
  assumes "list_all item_ok ps"
  shows "\<exists>s3. append_products E ps
             (s\<lparr>requests := requests s @ [start_index s],
                all_responses := all_responses s @ [data]\<rparr>) = (None, s3) \<and>
      all_products s3 = all_products s @ records_from (format_of E) (clock E) (ticks s) ps \<and>
      length (all_products s3) = length (all_products s) + length ps \<and>
      start_index s3 = start_index s \<and>
      requests s3 = requests s @ [start_index s] \<and>
      all_responses s3 = all_responses s @ [data] \<and>
      sleeps s3 = sleeps s \<and>
      ticks s3 = ticks s + length ps \<and>
      connection_pool s3 = connection_pool s \<and>
      checked_out s3 = checked_out s \<and>
      table s3 = table s \<and>
      (\<exists>ls. stdout s3 = stdout s @ ls)"
proof -
  let ?s2 = "s\<lparr>requests := requests s @ [start_index s],
                all_responses := all_responses s @ [data]\<rparr>"
  obtain x s3 where a: "append_products E ps ?s2 = (x, s3)" by (cases "append_products E ps ?s2")
  from append_products_ok [OF assms, of E ?s2] a have x: "x = None" by simp
  from append_products_all_products [of E ps ?s2] a
  have ap: "all_products s3 = all_products s @ records_from (format_of E) (clock E) (ticks s) ps"
    by simp
  from append_products_ok_ticks [OF assms, of E ?s2] a have ti: "ticks s3 = ticks s + length ps"
    by simp
  from append_products_stdout [of E ps ?s2] a have so: "\<exists>ls. stdout s3 = stdout s @ ls" by simp
  note fr = append_products_frame_eq [OF a]
  from ap have "length (all_products s3) = length (all_products s) + length ps"
    by (simp add: records_from_ok_length [OF assms])
  with a x ap ti so fr show ?thesis by simp
qed

lemma iteration_count_match:
  assumes "server E (length (requests s)) (start_index s) = Response 200 (Inr data)"
      and "page_fields data = Inr (PList ps, total_products)"
      and "ps \<noteq> []"
      and "list_all item_ok ps"
      and "len_ge (length (all_products s) + length ps) total_products = Inr True"
  shows "\<exists>s'. iteration E s = Stop s' \<and>
      requests s' = requests s @ [start_index s] \<and>
      all_products s' = all_products s @ records_from (format_of E) (clock E) (ticks s) ps \<and>
      length (all_products s') = length (all_products s) + length ps \<and>
      start_index s' = start_index s \<and>
      sleeps s' = sleeps s \<and>
      last (stdout s') = FetchedAll total_products"
proof -
  from page_appended [OF assms(4), of E s data] obtain s3 where
    a: "append_products E ps
             (s\<lparr>requests := requests s @ [start_index s],
                all_responses := all_responses s @ [data]\<rparr>) = (None, s3)"
    and p: "all_products s3 = all_products s @ records_from (format_of E) (clock E) (ticks s) ps"
      "length (all_products s3) = length (all_products s) + length ps"
      "start_index s3 = start_index s" "requests s3 = requests s @ [start_index s]"
      "sleeps s3 = sleeps s"
    by blast
  have "iteration E s = Stop (s3\<lparr>stdout := stdout s3 @ [FetchedAll total_products]\<rparr>)"
    using a p(2) assms(5) by (simp add: iteration_def try_page_items [OF assms(1-3)])
  with p show ?thesis by simp
qed

lemma iteration_continues:
  assumes "server E (length (requests s)) (start_index s) = Response 200 (Inr data)"
      and "page_fields data = Inr (PList ps, total_products)"
      and "ps \<noteq> []"
      and "list_all item_ok ps"
      and "len_ge (length (all_products s) + length ps) total_products = Inr False"
  shows "\<exists>s'. iteration E s = Again s' \<and>
      requests s' = requests s @ [start_index s] \<and>
      all_products s' = all_products s @ records_from (format_of E) (clock E) (ticks s) ps \<and>
      length (all_products s') = length (all_products s) + length ps \<and>
      start_index s' = start_index s + 96 \<and>
      sleeps s' = sleeps s"
proof -
  from page_appended [OF assms(4), of E s data] obtain s3 where
    a: "append_products E ps
             (s\<lparr>requests := requests s @ [start_index s],
                all_responses := all_responses s @ [data]\<rparr>) = (None, s3)"
    and p: "all_products s3 = all_products s @ records_from (format_of E) (clock E) (ticks s) ps"
      "length (all_products s3) = length (all_products s) + length ps"
      "start_index s3 = start_index s" "requests s3 = requests s @ [start_index s]"
      "sleeps s3 = sleeps s"
    by blast
  have "iteration E s = Again (s3\<lparr>start_index := start_index s3 + 96\<rparr>)"
    using a p(2) assms(5) by (simp add: iteration_def try_page_items [OF assms(1-3)])
  with p show ?thesis by simp
qed

lemma iteration_empty_page:
  assumes "server E (length (requests s)) (start_index s) = Response 200 (Inr data)"
      and "page_fields data = Inr (PList [], total_products)"
  shows "iteration E s =
     Stop (s\<lparr>requests := requests s @ [start_index s],
             all_responses := all_responses s @ [data],
             stdout := stdout s @ [NoMoreProducts (start_index s)]\<rparr>)"
  using assms by (simp add: iteration_def try_page_def Let_def truthy_def)

lemma iteration_bad_status:
  assumes "server E (length (requests s)) (start_index s) = Response status_code body"
      and "status_code \<noteq> 200"
  shows "iteration E s =
     Stop (s\<lparr>requests := requests s @ [start_index s],
             stdout := stdout s @ [FetchFailed (start_index s) status_code]\<rparr>)"
  using assms by (simp add: iteration_def try_page_def Let_def)

lemma page_fields_page: "page_fields (page items n) = Inr (PList items, PInt n)"
  by (simp add: page_fields_def page_def py_get_def dict_get_def)

lemma item_ok_tab_x: "item_ok tab_x"
  by (simp add: item_ok_def tab_x_def extract_product_data_def Let_def dict_get_def split1_def
      subscript0_def)

lemma extract_printed: "list_all (\<lambda>l. \<not> is_save_line l) (fst (extract_product_data f t p))"
  by (auto simp add: extract_product_data_def Let_def split: pyval.splits sum.splits)

lemma append_products_lines:
  "\<exists>ls. stdout (snd (append_products E ps s)) = stdout s @ ls \<and> list_all (\<lambda>l. \<not> is_save_line l) ls"
proof (induction ps arbitrary: s)
  case Nil
  then show ?case by simp
next
  case (Cons p ps)
  show ?case
  proof (cases "extract_product_data (format_of E) (clock E (ticks s)) p")
    case (Pair pr res)
    from extract_printed [of "format_of E" "clock E (ticks s)" p] Pair
    have pr: "list_all (\<lambda>l. \<not> is_save_line l) pr" by simp
    show ?thesis
    proof (cases res)
      case (Inl e)
      with Pair pr show ?thesis by simp
    next
      case (Inr r)
      let ?s' = "s\<lparr>ticks := Suc (ticks s), stdout := stdout s @ pr,
               all_products := all_products s @ [r]\<rparr>"
      from Cons [of ?s'] obtain ls where
        "stdout (snd (append_products E ps ?s')) = stdout ?s' @ ls"
        "list_all (\<lambda>l. \<not> is_save_line l) ls" by blast
      with Pair Inr pr show ?thesis by simp
    qed
  qed
qed

lemma append_products_lines_eq:
  assumes "append_products E ps s = (x, s')"
  shows "\<exists>ls. stdout s' = stdout s @ ls \<and> list_all (\<lambda>l. \<not> is_save_line l) ls"
  using append_products_lines [of E ps s] assms by simp

lemma try_page_frame:
  assumes "try_page E s = (c, s')"
  shows "connection_pool s' = connection_pool s \<and> checked_out s' = checked_out s \<and>
     table s' = table s"
  using assms
  by (auto simp add: try_page_def Let_def
      split: http_outcome.splits if_splits sum.splits prod.splits option.splits
      dest: append_products_frame_eq(5,6,7))

lemma try_page_lines:
  assumes "try_page E s = (c, s')"
  shows "\<exists>ls. stdout s' = stdout s @ ls \<and> list_all (\<lambda>l. \<not> is_save_line l) ls"
  using assms
  by (auto simp add: try_page_def Let_def
      split: http_outcome.splits if_splits sum.splits prod.splits option.splits
      dest!: append_products_lines_eq)

lemma iteration_frame:
  "connection_pool (state_of (iteration E s)) = connection_pool s \<and>
   checked_out (state_of (iteration E s)) = checked_out s \<and>
   table (state_of (iteration E s)) = table s \<and>
   (\<exists>ls. stdout (state_of (iteration E s)) = stdout s @ ls \<and> list_all (\<lambda>l. \<not> is_save_line l) ls)"
proof (cases "try_page E s")
  case (Pair c s')
  from try_page_frame [OF Pair] try_page_lines [OF Pair] Pair show ?thesis
    by (cases c) (auto simp add: iteration_def)
qed

lemma after_iterations_frame:
  "after_iterations E n s = Some s' \<Longrightarrow>
     connection_pool s' = connection_pool s \<and> checked_out s' = checked_out s \<and>
     table s' = table s \<and>
     (\<exists>ls. stdout s' = stdout s @ ls \<and> list_all (\<lambda>l. \<not> is_save_line l) ls)"
proof (induction n arbitrary: s)
  case 0
  then show ?case by simp
next
  case (Suc n)
  from Suc.prems obtain s1 where it: "iteration E s = Again s1"
    and r: "after_iterations E n s1 = Some s'"
    by (auto split: step.splits)
  from iteration_frame [of E s] it Suc.IH [OF r] show ?case by auto
qed

lemma fetch_loop_frame:
  "fetch_loop E n s = Some s' \<Longrightarrow>
     connection_pool s' = connection_pool s \<and> checked_out s' = checked_out s \<and>
     table s' = table s \<and>
     (\<exists>ls. stdout s' = stdout s @ ls \<and> list_all (\<lambda>l. \<not> is_save_line l) ls)"
proof (induction n arbitrary: s)
  case 0
  then show ?case by simp
next
  case (Suc n)
  show ?case
  proof (cases "iteration E s")
    case (Stop s1)
    with Suc.prems iteration_frame [of E s] show ?thesis by auto
  next
    case (Again s1)
    with Suc.prems have "fetch_loop E n s1 = Some s'" by simp
    from Suc.IH [OF this] iteration_frame [of E s] Again show ?thesis by auto
  qed
qed

lemma iteration_page_any:
  assumes "server E (length (requests s)) (start_index s) = Response 200 (Inr data)"
      and "page_fields data = Inr (PList ps, total_products)"
      and "ps \<noteq> []"
      and "list_all item_ok ps"
  shows "requests (state_of (iteration E s)) = requests s @ [start_index s] \<and>
     all_products (state_of (iteration E s)) =
       all_products s @ records_from (format_of E) (clock E) (ticks s) ps"
proof -
  from page_appended [OF assms(4), of E s data] obtain s3 where
    a: "append_products E ps
             (s\<lparr>requests := requests s @ [start_index s],
                all_responses := all_responses s @ [data]\<rparr>) = (None, s3)"
    and p: "all_products s3 = all_products s @ records_from (format_of E) (clock E) (ticks s) ps"
      "requests s3 = requests s @ [start_index s]"
    by blast
  show ?thesis
    using a p
    by (cases "len_ge (length (all_products s3)) total_products")
      (simp_all add: iteration_def try_page_items [OF assms(1-3)])
qed

lemma iteration_partial_page:
  assumes "server E (length (requests s)) (start_index s) = Response 200 (Inr data)"
      and "page_fields data = Inr (PList (good @ bad # rest), total_products)"
      and "list_all item_ok good"
      and "\<not> item_ok bad"
  shows "\<exists>s1 e. iteration E s = Again s1 \<and>
      start_index s1 = start_index s \<and>
      requests s1 = requests s @ [start_index s] \<and>
      sleeps s1 = sleeps s @ [5] \<and>
      last (stdout s1) = FetchError (start_index s) e \<and>
      all_products s1 = all_products s @ records_from (format_of E) (clock E) (ticks s) good \<and>
      length (all_products s1) = length (all_products s) + length good \<and>
      ticks s1 = ticks s + length good + 1"
proof -
  let ?s2 = "s\<lparr>requests := requests s @ [start_index s],
                all_responses := all_responses s @ [data]\<rparr>"
  let ?ps = "good @ bad # rest"
  obtain x s3 where a: "append_products E ?ps ?s2 = (x, s3)"
    by (cases "append_products E ?ps ?s2")
  from append_products_bad [OF assms(3,4), of E rest ?s2] a obtain e where
    x: "x = Some e" and ti: "ticks s3 = ticks s + length good + 1"
    by auto
  from append_products_all_products [of E ?ps ?s2] a
  have ap: "all_products s3 = all_products s @ records_from (format_of E) (clock E) (ticks s) good"
    by (simp add: records_from_bad [OF assms(3,4)])
  note fr = append_products_frame_eq [OF a]
  have ne: "?ps \<noteq> []" by simp
  have "iteration E s =
      Again (s3\<lparr>stdout := stdout s3 @ [FetchError (start_index s3) e], sleeps := sleeps s3 @ [5]\<rparr>)"
    using a x by (simp add: iteration_def try_page_items [OF assms(1,2) ne])
  with ap ti fr show ?thesis
    by (simp add: records_from_ok_length [OF assms(3)])
qed

text \<open>
  C6. Whenever a pass of the loop raises, the handler prints the line of the current
  offset and sleeps five seconds, and the offset is the one the pass started with: the
  next pass requests the same offset. A run of \<open>n\<close> transport or parse failures in a row,
  for any \<open>n\<close>, is \<open>n\<close> requests of that one offset and \<open>n\<close> sleeps of five seconds each,
  with nothing appended, after which the loop goes on as before: there is no limit on
  the retries and the delay does not grow.
\<close>

theorem exception_retries_same_offset:
  "(\<forall>e s'. try_page E s = (Raised e, s') \<longrightarrow>
      start_index s' = start_index s \<and>
      iteration E s =
        Again (s'\<lparr>stdout := stdout s' @ [FetchError (start_index s) e],
                  sleeps := sleeps s' @ [5]\<rparr>)) \<and>
   (\<forall>n ex. (\<forall>k<n. fetch_exception (server E (length (requests s) + k) (start_index s)) = Some (ex k)) \<longrightarrow>
      after_iterations E n s =
        Some (s\<lparr>requests := requests s @ replicate n (start_index s),
                stdout := stdout s @ map (\<lambda>k. FetchError (start_index s) (ex k)) [0..<n],
                sleeps := sleeps s @ replicate n 5\<rparr>) \<and>
      (\<forall>m. fetch_loop E (n + m) s =
         fetch_loop E m
           (s\<lparr>requests := requests s @ replicate n (start_index s),
              stdout := stdout s @ map (\<lambda>k. FetchError (start_index s) (ex k)) [0..<n],
              sleeps := sleeps s @ replicate n 5\<rparr>)))"
proof (intro conjI allI impI)
  fix e s' assume r: "try_page E s = (Raised e, s')"
  from try_page_start_index [OF r] show si: "start_index s' = start_index s" by simp
  from r si show "iteration E s =
        Again (s'\<lparr>stdout := stdout s' @ [FetchError (start_index s) e],
                  sleeps := sleeps s' @ [5]\<rparr>)"
    by (simp add: iteration_def)
next
  fix n ex
  assume h: "\<forall>k<n. fetch_exception (server E (length (requests s) + k) (start_index s)) = Some (ex k)"
  from retries [OF h] show a: "after_iterations E n s =
        Some (s\<lparr>requests := requests s @ replicate n (start_index s),
                stdout := stdout s @ map (\<lambda>k. FetchError (start_index s) (ex k)) [0..<n],
                sleeps := sleeps s @ replicate n 5\<rparr>)" .
  fix m
  from after_iterations_loop [OF a] show "fetch_loop E (n + m) s =
         fetch_loop E m
           (s\<lparr>requests := requests s @ replicate n (start_index s),
              stdout := stdout s @ map (\<lambda>k. FetchError (start_index s) (ex k)) [0..<n],
              sleeps := sleeps s @ replicate n 5\<rparr>)" .
qed

theorem exception_retries_same_offset_witness:
  "iteration flaky_env initial =
     Again (initial\<lparr>requests := [0],
              stdout := [FetchError 0 (LibError ''ConnectionError'')],
              sleeps := [5]\<rparr>) \<and>
   fetch_loop flaky_env 3 initial = None \<and>
   fetch_loop flaky_env 4 initial =
     Some (initial\<lparr>requests := [0, 0, 0, 0],
             stdout := [FetchError 0 (LibError ''ConnectionError''),
                        FetchError 0 (LibError ''JSONDecodeError''),
                        FetchError 0 (LibError ''Timeout''),
                        FetchFailed 0 503],
             sleeps := [5, 5, 5]\<rparr>)"
proof -
  let ?ex = "\<lambda>k::nat. if k = 0 then LibError ''ConnectionError''
     else if k = 1 then LibError ''JSONDecodeError'' else LibError ''Timeout''"
  have tp: "try_page flaky_env initial =
      (Raised (LibError ''ConnectionError''), initial\<lparr>requests := [0]\<rparr>)"
    by (simp add: try_page_def flaky_env_def base_env_def initial_def)
  note one = exception_retries_same_offset [of flaky_env initial, THEN conjunct1, THEN spec,
      THEN spec, THEN mp, OF tp, THEN conjunct2]
  have h: "\<forall>k<3. fetch_exception (server flaky_env (length (requests initial) + k) (start_index initial)) = Some (?ex k)"
    by (simp add: flaky_env_def base_env_def initial_def)
  have e: "[0..<3] = [0, 1, 2]" by (simp add: upt_rec)
  have r: "\<And>x::nat. replicate 3 x = [x, x, x]" by (simp add: numeral_3_eq_3)
  note t = exception_retries_same_offset [of flaky_env initial, THEN conjunct2, THEN spec,
      THEN spec, THEN mp, OF h, THEN conjunct2, THEN spec]
  have "fetch_loop flaky_env 3 initial = fetch_loop flaky_env (3 + 0) initial" by simp
  also note t [of 0]
  finally have three: "fetch_loop flaky_env 3 initial = None" by simp
  have "fetch_loop flaky_env 4 initial = fetch_loop flaky_env (3 + 1) initial" by simp
  also note t [of 1]
  finally have four: "fetch_loop flaky_env 4 initial =
     Some (initial\<lparr>requests := [0, 0, 0, 0],
             stdout := [FetchError 0 (LibError ''ConnectionError''),
                        FetchError 0 (LibError ''JSONDecodeError''),
                        FetchError 0 (LibError ''Timeout''),
                        FetchFailed 0 503],
             sleeps := [5, 5, 5]\<rparr>)"
    by (simp add: e r initial_def flaky_env_def base_env_def iteration_def try_page_def)
  from one three four show ?thesis by (simp add: initial_def)
qed

lemma env96_first: "server env96 (length (requests initial)) (start_index initial) =
    Response 200 (Inr (page (replicate 96 tab_x) 96))"
  by (simp add: env96_def base_env_def initial_def)

lemma all_tab_x_ok: "list_all item_ok (replicate n tab_x)"
  by (simp add: list_all_iff item_ok_tab_x)

text \<open>
  C2, as stated, fails: with a total of 96 and a first page of 96 items the loop does not
  leave in its second pass. It leaves in the first, and there is no second.
\<close>

theorem count_match_second_iteration_counterexample:
  "\<not> stops_at_iteration env96 initial 2"
proof -
  have "len_ge (length (all_products initial) + length (replicate 96 tab_x)) (PInt 96) = Inr True"
    by (simp add: len_ge_def initial_def)
  from iteration_count_match [OF env96_first page_fields_page _ all_tab_x_ok this]
  obtain s' where "iteration env96 initial = Stop s'" by auto
  then have "fetch_loop env96 (Suc 0) initial = Some s'" by simp
  then show ?thesis by (simp add: stops_at_iteration_def)
qed

text \<open>
  C2, amended. When a page of extractable items brings the number of accumulated records
  up to the total the server reports (or beyond), the loop leaves in that same pass,
  through the count-match test of line 151, after one request for the page and with the
  page's records appended; no further request is made. With a total of 96 and a first
  page of 96 items exactly one page is fetched and the loop body runs exactly once.
\<close>

theorem count_match_stops_in_same_pass:
  assumes "server E (length (requests s)) (start_index s) = Response 200 (Inr data)"
      and "page_fields data = Inr (PList ps, total_products)"
      and "ps \<noteq> []"
      and "list_all item_ok ps"
      and "len_ge (length (all_products s) + length ps) total_products = Inr True"
  shows "stops_at_iteration E s 1 \<and>
     (\<exists>s'. (\<forall>n. fetch_loop E (Suc n) s = Some s') \<and>
        requests s' = requests s @ [start_index s] \<and>
        all_products s' = all_products s @ records_from (format_of E) (clock E) (ticks s) ps \<and>
        length (all_products s') = length (all_products s) + length ps \<and>
        start_index s' = start_index s \<and>
        sleeps s' = sleeps s \<and>
        last (stdout s') = FetchedAll total_products)"
proof -
  from iteration_count_match [OF assms] obtain s' where
    it: "iteration E s = Stop s'"
    and p: "requests s' = requests s @ [start_index s]"
      "all_products s' = all_products s @ records_from (format_of E) (clock E) (ticks s) ps"
      "length (all_products s') = length (all_products s) + length ps"
      "start_index s' = start_index s" "sleeps s' = sleeps s"
      "last (stdout s') = FetchedAll total_products"
    by blast
  from it have l: "\<forall>n. fetch_loop E (Suc n) s = Some s'" by simp
  then have "fetch_loop E (Suc 0) s = Some s'" by blast
  then have "stops_at_iteration E s 1" by (simp add: stops_at_iteration_def)
  with l p show ?thesis by blast
qed

theorem count_match_stops_in_same_pass_witness:
  "stops_at_iteration env96 initial 1 \<and>
   map_option requests (fetch_loop env96 1 initial) = Some [0] \<and>
   map_option (\<lambda>s. length (all_products s)) (fetch_loop env96 1 initial) = Some 96 \<and>
   map_option (\<lambda>s. last (stdout s)) (fetch_loop env96 1 initial) = Some (FetchedAll (PInt 96))"
proof -
  have ne: "replicate 96 tab_x \<noteq> []" by simp
  have ge: "len_ge (length (all_products initial) + length (replicate 96 tab_x)) (PInt 96) = Inr True"
    by (simp add: len_ge_def initial_def)
  from count_match_stops_in_same_pass [OF env96_first page_fields_page ne all_tab_x_ok ge]
  obtain s' where "stops_at_iteration env96 initial 1"
    and "\<forall>n. fetch_loop env96 (Suc n) initial = Some s'"
    and "requests s' = requests initial @ [start_index initial]"
    and "length (all_products s') = length (all_products initial) + length (replicate 96 tab_x)"
    and "last (stdout s') = FetchedAll (PInt 96)"
    by blast
  then show ?thesis by (simp add: initial_def)
qed

text \<open>
  C8. A decoded page whose product list is empty ends the loop in that pass, whatever
  total the server reports and however few records have been accumulated; nothing is
  appended. With a total of 200, 96 items at offset 0 and none at offset 96, the loop
  leaves in its second pass, after the requests for offsets 0 and 96, with 96 records.
\<close>

theorem empty_page_stops:
  assumes "server E (length (requests s)) (start_index s) = Response 200 (Inr data)"
      and "page_fields data = Inr (PList [], total_products)"
  shows "\<exists>s'. s' = s\<lparr>requests := requests s @ [start_index s],
                      all_responses := all_responses s @ [data],
                      stdout := stdout s @ [NoMoreProducts (start_index s)]\<rparr> \<and>
      iteration E s = Stop s' \<and>
      (\<forall>n. fetch_loop E (Suc n) s = Some s') \<and>
      stops_at_iteration E s 1 \<and>
      all_products s' = all_products s"
  using iteration_empty_page [OF assms] by (simp add: stops_at_iteration_def)

theorem empty_page_stops_witness:
  "fetch_loop env200 1 initial = None \<and>
   map_option requests (fetch_loop env200 2 initial) = Some [0, 96] \<and>
   map_option (\<lambda>s. length (all_products s)) (fetch_loop env200 2 initial) = Some 96 \<and>
   map_option (\<lambda>s. last (stdout s)) (fetch_loop env200 2 initial) = Some (NoMoreProducts 96)"
proof -
  have first: "server env200 (length (requests initial)) (start_index initial) =
      Response 200 (Inr (page (replicate 96 tab_x) 200))"
    by (simp add: env200_def base_env_def initial_def)
  have ne: "replicate 96 tab_x \<noteq> []" by simp
  have lt: "len_ge (length (all_products initial) + length (replicate 96 tab_x)) (PInt 200) = Inr False"
    by (simp add: len_ge_def initial_def)
  from iteration_continues [OF first page_fields_page ne all_tab_x_ok lt]
  obtain s1 where it1: "iteration env200 initial = Again s1"
    and p1: "requests s1 = requests initial @ [start_index initial]"
      "length (all_products s1) = length (all_products initial) + length (replicate 96 tab_x)"
      "start_index s1 = start_index initial + 96"
    by blast
  have second: "server env200 (length (requests s1)) (start_index s1) = Response 200 (Inr (page [] 200))"
    using p1 by (simp add: env200_def base_env_def initial_def)
  from empty_page_stops [OF second page_fields_page]
  have it2: "iteration env200 s1 =
      Stop (s1\<lparr>requests := requests s1 @ [start_index s1],
               all_responses := all_responses s1 @ [page [] 200],
               stdout := stdout s1 @ [NoMoreProducts (start_index s1)]\<rparr>)"
    by simp
  have two: "(2::nat) = Suc (Suc 0)" by simp
  show ?thesis
    unfolding two using it1 it2 p1 by (simp add: initial_def)
qed

text \<open>
  C7. A response whose status is not 200 ends the loop in that pass: the line of line 135
  is printed, the offset is requested once and not again, there is no sleep, and what was
  accumulated is untouched. Wherever in the run this happens, \<^verbatim>\<open>fetch_products\<close> goes on
  to lines 161-162, and with a pool the run ends after \<^verbatim>\<open>save_to_postgresql\<close> has been
  given the accumulated records; run and save return, they do not raise.
\<close>

theorem non_200_status_is_terminal:
  assumes "server E (length (requests s)) (start_index s) = Response status_code body"
      and "status_code \<noteq> 200"
  shows "\<exists>s'. s' = s\<lparr>requests := requests s @ [start_index s],
                      stdout := stdout s @ [FetchFailed (start_index s) status_code]\<rparr> \<and>
      iteration E s = Stop s' \<and>
      (\<forall>n. fetch_loop E (Suc n) s = Some s') \<and>
      (\<forall>k n s0.
         after_iterations E k (s0\<lparr>start_index := 0, all_products := [], all_responses := []\<rparr>) = Some s \<longrightarrow>
         fetch_products E (k + Suc n) s0 =
           Some (if connection_pool s then save_to_postgresql E (all_products s) s' else s')) \<and>
      (\<forall>k n. pool_init E = None \<and>
         after_iterations E k (initial\<lparr>connection_pool := True, stdout := [PoolConnected]\<rparr>) = Some s \<longrightarrow>
         run_script E (k + Suc n) = Some (Exited (save_to_postgresql E (all_products s) s')))"
proof -
  let ?s' = "s\<lparr>requests := requests s @ [start_index s],
                      stdout := stdout s @ [FetchFailed (start_index s) status_code]\<rparr>"
  note it = iteration_bad_status [OF assms]
  then have l: "\<forall>n. fetch_loop E (Suc n) s = Some ?s'" by simp
  have fp: "fetch_products E (k + Suc n) s0 =
           Some (if connection_pool s then save_to_postgresql E (all_products s) ?s' else ?s')"
    if "after_iterations E k (s0\<lparr>start_index := 0, all_products := [], all_responses := []\<rparr>) = Some s"
    for k n s0
    using after_iterations_loop [OF that, of "Suc n"] l by (simp add: fetch_products_def)
  have rs: "run_script E (k + Suc n) = Some (Exited (save_to_postgresql E (all_products s) ?s'))"
    if h: "pool_init E = None \<and>
         after_iterations E k (initial\<lparr>connection_pool := True, stdout := [PoolConnected]\<rparr>) = Some s"
    for k n
  proof -
    let ?s0 = "initial\<lparr>connection_pool := True, stdout := [PoolConnected]\<rparr>"
    have e: "?s0\<lparr>start_index := 0, all_products := [], all_responses := []\<rparr> = ?s0"
      by (simp add: initial_def)
    from h have a: "after_iterations E k (?s0\<lparr>start_index := 0, all_products := [], all_responses := []\<rparr>) = Some s"
      by (simp only: e)
    from h after_iterations_frame [of E k ?s0 s] have cp: "connection_pool s" by simp
    from fp [OF a, of n] cp h show ?thesis by (simp add: run_script_def)
  qed
  from it l fp rs show ?thesis by blast
qed

theorem non_200_status_is_terminal_witness:
  "fetch_products base_env 1 initial =
     Some (initial\<lparr>requests := [0], stdout := [FetchFailed 0 404]\<rparr>) \<and>
   run_script base_env 1 =
     Some (Exited (initial\<lparr>connection_pool := True, requests := [0],
                     stdout := [PoolConnected, FetchFailed 0 404, SaveOk 0]\<rparr>))"
proof -
  let ?s = "initial\<lparr>connection_pool := True, stdout := [PoolConnected]\<rparr>"
  have b: "(404::int) \<noteq> 200" by simp
  have a0: "server base_env (length (requests initial)) (start_index initial) =
      Response 404 (Inl (LibError ''JSONDecodeError''))"
    by (simp add: base_env_def)
  have c0: "after_iterations base_env 0
      (initial\<lparr>start_index := 0, all_products := [], all_responses := []\<rparr>) = Some initial"
    by (simp add: initial_def)
  from non_200_status_is_terminal [OF a0 b]
  have "fetch_products base_env (0 + Suc 0) initial =
      Some (if connection_pool initial
            then save_to_postgresql base_env (all_products initial)
              (initial\<lparr>requests := requests initial @ [start_index initial],
                  stdout := stdout initial @ [FetchFailed (start_index initial) 404]\<rparr>)
            else initial\<lparr>requests := requests initial @ [start_index initial],
                  stdout := stdout initial @ [FetchFailed (start_index initial) 404]\<rparr>)"
    using c0 by blast
  then have one: "fetch_products base_env 1 initial =
     Some (initial\<lparr>requests := [0], stdout := [FetchFailed 0 404]\<rparr>)"
    by (simp add: initial_def)
  have a: "server base_env (length (requests ?s)) (start_index ?s) =
      Response 404 (Inl (LibError ''JSONDecodeError''))"
    by (simp add: base_env_def)
  have c: "pool_init base_env = None \<and> after_iterations base_env 0 ?s = Some ?s"
    by (simp add: base_env_def)
  from non_200_status_is_terminal [OF a b]
  have "run_script base_env (0 + Suc 0) =
      Some (Exited (save_to_postgresql base_env (all_products ?s)
        (?s\<lparr>requests := requests ?s @ [start_index ?s],
            stdout := stdout ?s @ [FetchFailed (start_index ?s) 404]\<rparr>)))"
    using c by blast
  then have two: "run_script base_env 1 =
     Some (Exited (initial\<lparr>connection_pool := True, requests := [0],
                     stdout := [PoolConnected, FetchFailed 0 404, SaveOk 0]\<rparr>))"
    by (simp add: initial_def save_to_postgresql_def try_save_def base_env_def)
  from one two show ?thesis by simp
qed

text \<open>
  C10. When an item of a page raises after earlier items of that page have been
  appended, the appended records stay, the handler prints and sleeps five seconds, and
  the next pass requests the same offset again. If that answer is a page of extractable
  items, all of them are appended after the records kept from the failed pass, so the
  items extracted in both passes are in the accumulator twice; the accumulator is what
  \<^verbatim>\<open>fetch_products\<close> hands to \<^verbatim>\<open>save_to_postgresql\<close>.
\<close>

theorem partial_page_is_kept_and_refetched:
  assumes "server E (length (requests s)) (start_index s) = Response 200 (Inr data)"
      and "page_fields data = Inr (PList (good @ bad # rest), total_products)"
      and "list_all item_ok good"
      and "\<not> item_ok bad"
  shows "\<exists>s1 e. iteration E s = Again s1 \<and>
      start_index s1 = start_index s \<and>
      requests s1 = requests s @ [start_index s] \<and>
      sleeps s1 = sleeps s @ [5] \<and>
      last (stdout s1) = FetchError (start_index s) e \<and>
      all_products s1 = all_products s @ records_from (format_of E) (clock E) (ticks s) good \<and>
      length (all_products s1) = length (all_products s) + length good \<and>
      (\<forall>data2 ps2 total2.
         server E (length (requests s1)) (start_index s1) = Response 200 (Inr data2) \<and>
         page_fields data2 = Inr (PList ps2, total2) \<and> ps2 \<noteq> [] \<and> list_all item_ok ps2 \<longrightarrow>
         requests (state_of (iteration E s1)) = requests s @ [start_index s, start_index s] \<and>
         all_products (state_of (iteration E s1)) =
           all_products s @ records_from (format_of E) (clock E) (ticks s) good @
             records_from (format_of E) (clock E) (ticks s + length good + 1) ps2)"
proof -
  from iteration_partial_page [OF assms] obtain s1 e where
    it: "iteration E s = Again s1"
    and p: "start_index s1 = start_index s" "requests s1 = requests s @ [start_index s]"
      "sleeps s1 = sleeps s @ [5]" "last (stdout s1) = FetchError (start_index s) e"
      "all_products s1 = all_products s @ records_from (format_of E) (clock E) (ticks s) good"
      "length (all_products s1) = length (all_products s) + length good"
      "ticks s1 = ticks s + length good + 1"
    by blast
  have again: "requests (state_of (iteration E s1)) = requests s @ [start_index s, start_index s] \<and>
         all_products (state_of (iteration E s1)) =
           all_products s @ records_from (format_of E) (clock E) (ticks s) good @
             records_from (format_of E) (clock E) (ticks s + length good + 1) ps2"
    if "server E (length (requests s1)) (start_index s1) = Response 200 (Inr data2) \<and>
         page_fields data2 = Inr (PList ps2, total2) \<and> ps2 \<noteq> [] \<and> list_all item_ok ps2"
    for data2 ps2 total2
  proof -
    from that have h: "server E (length (requests s1)) (start_index s1) = Response 200 (Inr data2)"
      "page_fields data2 = Inr (PList ps2, total2)" "ps2 \<noteq> []" "list_all item_ok ps2"
      by simp_all
    from iteration_page_any [OF h] p show ?thesis by simp
  qed
  from it p(1-6) again show ?thesis by blast
qed

theorem partial_page_is_kept_and_refetched_witness:
  "\<exists>s'. run_script refetch_env 2 = Some (Exited s') \<and>
      requests s' = [0, 0] \<and> sleeps s' = [5] \<and>
      map name (all_products s') = [''Tab X'', ''Tab X'', ''Tab Y''] \<and>
      map fst (table s') = [''Tab X'', ''Tab X'', ''Tab Y'']"
proof -
  let ?s0 = "initial\<lparr>connection_pool := True, stdout := [PoolConnected]\<rparr>"
  let ?f = "format_of refetch_env" and ?c = "clock refetch_env"
  have first: "server refetch_env (length (requests ?s0)) (start_index ?s0) =
      Response 200 (Inr (page ([tab_x] @ no_brand_item # []) 2))"
    by (simp add: refetch_env_def base_env_def initial_def)
  have good: "list_all item_ok [tab_x]" by (simp add: item_ok_tab_x)
  have bad: "\<not> item_ok no_brand_item"
    by (simp add: item_ok_def no_brand_item_def extract_product_data_def Let_def dict_get_def
        split1_def subscript0_def)
  from partial_page_is_kept_and_refetched [OF first page_fields_page good bad]
  obtain s1 where it1: "iteration refetch_env ?s0 = Again s1"
    and p1: "start_index s1 = start_index ?s0" "requests s1 = requests ?s0 @ [start_index ?s0]"
      "sleeps s1 = sleeps ?s0 @ [5]"
      "length (all_products s1) = length (all_products ?s0) + length [tab_x]"
    and again: "\<forall>data2 ps2 total2.
         server refetch_env (length (requests s1)) (start_index s1) = Response 200 (Inr data2) \<and>
         page_fields data2 = Inr (PList ps2, total2) \<and> ps2 \<noteq> [] \<and> list_all item_ok ps2 \<longrightarrow>
         requests (state_of (iteration refetch_env s1)) =
           requests ?s0 @ [start_index ?s0, start_index ?s0] \<and>
         all_products (state_of (iteration refetch_env s1)) =
           all_products ?s0 @ records_from ?f ?c (ticks ?s0) [tab_x] @
             records_from ?f ?c (ticks ?s0 + length [tab_x] + 1) ps2"
    by blast
  have second: "server refetch_env (length (requests s1)) (start_index s1) =
      Response 200 (Inr (page [tab_x, tab_y] 2))"
    using p1 by (simp add: refetch_env_def base_env_def initial_def)
  have ok2: "list_all item_ok [tab_x, tab_y]"
    by (simp add: item_ok_tab_x)
      (simp add: item_ok_def tab_y_def extract_product_data_def Let_def dict_get_def
        split1_def subscript0_def)
  have ge: "len_ge (length (all_products s1) + length [tab_x, tab_y]) (PInt 2) = Inr True"
    using p1 by (simp add: len_ge_def initial_def)
  from iteration_count_match [OF second page_fields_page _ ok2 ge]
  obtain s2 where it2: "iteration refetch_env s1 = Stop s2"
    and p2: "sleeps s2 = sleeps s1"
    by auto
  have ne: "[tab_x, tab_y] \<noteq> []" by simp
  from again second page_fields_page [of "[tab_x, tab_y]" 2] ne ok2
  have "requests (state_of (iteration refetch_env s1)) =
           requests ?s0 @ [start_index ?s0, start_index ?s0] \<and>
         all_products (state_of (iteration refetch_env s1)) =
           all_products ?s0 @ records_from ?f ?c (ticks ?s0) [tab_x] @
             records_from ?f ?c (ticks ?s0 + length [tab_x] + 1) [tab_x, tab_y]"
    by blast
  with it2 have both: "requests s2 = requests ?s0 @ [start_index ?s0, start_index ?s0]"
    "all_products s2 =
       all_products ?s0 @ records_from ?f ?c (ticks ?s0) [tab_x] @
         records_from ?f ?c (ticks ?s0 + length [tab_x] + 1) [tab_x, tab_y]"
    by simp_all
  have two: "(2::nat) = Suc (Suc 0)" by simp
  from it1 it2 have fl: "fetch_loop refetch_env 2 ?s0 = Some s2"
    unfolding two by simp
  from fetch_loop_frame [OF fl]
  have fr: "connection_pool s2" "checked_out s2 = 0" "table s2 = []"
    by (simp_all add: initial_def)
  have e: "?s0\<lparr>start_index := 0, all_products := [], all_responses := []\<rparr> = ?s0"
    by (simp add: initial_def)
  have run: "run_script refetch_env 2 =
      Some (Exited (save_to_postgresql refetch_env (all_products s2) s2))"
    using fl fr by (simp add: run_script_def fetch_products_def e refetch_env_def base_env_def)
  have names: "map name (all_products s2) = [''Tab X'', ''Tab X'', ''Tab Y'']"
    using both(2)
    by (simp add: initial_def tab_x_def tab_y_def extract_product_data_def Let_def dict_get_def
        split1_def subscript0_def)
  have rows: "map (fst \<circ> row_of) xs = map name xs" for xs
    by (simp add: row_of_def)
  have rq: "requests s2 = [0, 0]" "sleeps s2 = [5]"
    using p1(3) p2 both(1) by (simp_all add: initial_def)
  show ?thesis
    unfolding run using fr names rq
    by (simp add: save_to_postgresql_def try_save_def refetch_env_def base_env_def rows)
qed

section \<open>The pool at startup\<close>

text \<open>
  C9, as stated, fails: when the construction of the pool raises anything but
  \<^verbatim>\<open>psycopg2.OperationalError\<close> (here the KeyError of a configuration without one of
  the keys), nothing catches it and the run ends there, before any request.
\<close>

theorem pool_failure_other_exception_counterexample:
  "pool_init crash_env = Some KeyError \<and>
   run_script crash_env 5 = Some (Crashed KeyError initial) \<and>
   requests initial = [] \<and> all_products initial = []"
  by (simp add: crash_env_def env96_def base_env_def run_script_def initial_def)

text \<open>
  C9, amended. If the construction of the pool raises \<^verbatim>\<open>psycopg2.OperationalError\<close>, the
  run goes on without a pool: it is exactly the pagination loop started after the line
  of line 26, so it ends whenever the loop does, and it never raises. At its end no
  connection has been taken, no row has been written, the first line printed is the one
  that announces the skipped database operations, and \<^verbatim>\<open>save_to_postgresql\<close> has printed
  nothing, since it is not called.
\<close>

theorem degraded_mode_on_operational_error:
  assumes "pool_init E = Some (OperationalError m)"
  shows "run_script E n =
       map_option Exited (fetch_loop E n (initial\<lparr>stdout := [PoolConnectError (OperationalError m)]\<rparr>)) \<and>
     (\<forall>r. run_script E n = Some r \<longrightarrow>
        (\<exists>s'. r = Exited s' \<and> \<not> connection_pool s' \<and> checked_out s' = 0 \<and> table s' = [] \<and>
           hd (stdout s') = PoolConnectError (OperationalError m) \<and>
           list_all (\<lambda>l. \<not> is_save_line l) (stdout s')))"
proof -
  let ?s0 = "initial\<lparr>stdout := [PoolConnectError (OperationalError m)]\<rparr>"
  have e: "?s0\<lparr>start_index := 0, all_products := [], all_responses := []\<rparr> = ?s0"
    by (simp add: initial_def)
  have fr: "\<not> connection_pool s' \<and> checked_out s' = 0 \<and> table s' = [] \<and>
           hd (stdout s') = PoolConnectError (OperationalError m) \<and>
           list_all (\<lambda>l. \<not> is_save_line l) (stdout s')"
    if "fetch_loop E n ?s0 = Some s'" for s'
    using fetch_loop_frame [OF that] by (auto simp add: initial_def)
  have run: "run_script E n = map_option Exited (fetch_loop E n ?s0)"
  proof (cases "fetch_loop E n ?s0")
    case None
    with assms show ?thesis by (simp add: run_script_def fetch_products_def e)
  next
    case (Some s')
    with assms fr [OF Some] show ?thesis by (simp add: run_script_def fetch_products_def e)
  qed
  from run fr show ?thesis by (cases "fetch_loop E n ?s0") auto
qed

theorem degraded_mode_on_operational_error_witness:
  "\<exists>s'. run_script degraded_env 1 = Some (Exited s') \<and>
      requests s' = [0] \<and> length (all_products s') = 96 \<and>
      \<not> connection_pool s' \<and> checked_out s' = 0 \<and> table s' = [] \<and>
      hd (stdout s') = PoolConnectError (OperationalError ''could not connect to server'')"
proof -
  let ?s0 = "initial\<lparr>stdout := [PoolConnectError (OperationalError ''could not connect to server'')]\<rparr>"
  have p: "pool_init degraded_env = Some (OperationalError ''could not connect to server'')"
    by (simp add: degraded_env_def)
  have first: "server degraded_env (length (requests ?s0)) (start_index ?s0) =
      Response 200 (Inr (page (replicate 96 tab_x) 96))"
    by (simp add: degraded_env_def env96_def base_env_def initial_def)
  have ge: "len_ge (length (all_products ?s0) + length (replicate 96 tab_x)) (PInt 96) = Inr True"
    by (simp add: len_ge_def initial_def)
  from iteration_count_match [OF first page_fields_page _ all_tab_x_ok ge]
  obtain s' where it: "iteration degraded_env ?s0 = Stop s'"
    and q: "requests s' = requests ?s0 @ [start_index ?s0]"
      "length (all_products s') = length (all_products ?s0) + length (replicate 96 tab_x)"
    by auto
  from it have fl: "fetch_loop degraded_env 1 ?s0 = Some s'" by simp
  note t = degraded_mode_on_operational_error [OF p, of 1]
  from t fl have r: "run_script degraded_env 1 = Some (Exited s')" by simp
  with t have "\<not> connection_pool s' \<and> checked_out s' = 0 \<and> table s' = [] \<and>
      hd (stdout s') = PoolConnectError (OperationalError ''could not connect to server'')"
    by auto
  with r q show ?thesis by (simp add: initial_def)
qed

section \<open>Persistence of a batch\<close>

text \<open>
  C1. When \<^verbatim>\<open>execute_batch\<close> or \<^verbatim>\<open>commit\<close> raises, the exception is caught and printed and
  \<^verbatim>\<open>save_to_postgresql\<close> returns, but the connection taken by \<^verbatim>\<open>getconn\<close> is still
  out of the pool: \<^verbatim>\<open>putconn\<close> stands in the body of the \<^verbatim>\<open>try\<close> (line 199) and the
  handler does not call it. On success the connection is given back.
\<close>

theorem save_failure_keeps_connection:
  "save_to_postgresql insert_fails_env [tab_x_record] (initial\<lparr>connection_pool := True\<rparr>) =
     initial\<lparr>connection_pool := True, checked_out := 1,
             stdout := [SaveError (LibError ''DataError'')]\<rparr> \<and>
   save_to_postgresql commit_fails_env [tab_x_record] (initial\<lparr>connection_pool := True\<rparr>) =
     initial\<lparr>connection_pool := True, checked_out := 1,
             stdout := [SaveError (OperationalError ''server closed the connection'')]\<rparr> \<and>
   save_to_postgresql base_env [tab_x_record] (initial\<lparr>connection_pool := True\<rparr>) =
     initial\<lparr>connection_pool := True, checked_out := 0, table := [row_of tab_x_record],
             stdout := [SaveOk 1]\<rparr>"
  by (simp add: save_to_postgresql_def try_save_def insert_fails_env_def commit_fails_env_def
      base_env_def initial_def)

end
